theory Spec2Isabelle
  imports Complex_Main
begin

section \<open>Python values: exceptions and string helpers\<close>

text \<open>
  The module \<^verbatim>\<open>indi_aws/aws_utils.py\<close> talks to an S3 bucket through boto3 and to the
  local file system through \<^verbatim>\<open>os\<close>. Exceptions are values: every function of the
  model returns an outcome together with the world it leaves behind, so that the side
  effects made before a raise stay visible.

  \<open>ClientError\<close> is \<^verbatim>\<open>botocore.exceptions.ClientError\<close> (an error response of the
  service: 404, 403, ...). \<open>LibraryError\<close> stands for any other exception a boto3 call
  raises (a connection error, \<^verbatim>\<open>S3UploadFailedError\<close>, ...). \<open>OSError\<close> covers
  \<^verbatim>\<open>FileNotFoundError\<close>, \<^verbatim>\<open>IsADirectoryError\<close> and \<^verbatim>\<open>FileExistsError\<close>. All of them
  are subclasses of \<^verbatim>\<open>Exception\<close>, so \<^verbatim>\<open>except Exception\<close> catches each one.
\<close>

datatype pyexn =
    ClientError
  | LibraryError
  | OSError
  | IndexError
  | ZeroDivisionError
  | ValueError string
  | RuntimeError string

datatype outcome = Done | Raised pyexn

type_synonym key = string
type_synonym path = string

definition startswith :: "string \<Rightarrow> string \<Rightarrow> bool" where
  "startswith s p = (take (length p) s = p)"

text \<open>\<^verbatim>\<open>s.split(c)\<close> for a one-character separator.\<close>

fun py_split :: "char \<Rightarrow> string \<Rightarrow> string list" where
  "py_split c [] = [[]]"
| "py_split c (x # xs) =
     (if x = c then [] # py_split c xs
      else (case py_split c xs of [] \<Rightarrow> [[x]] | w # ws \<Rightarrow> (x # w) # ws))"

text \<open>\<^verbatim>\<open>xs[i]\<close> for \<open>i \<ge> 0\<close>: out of range raises \<^verbatim>\<open>IndexError\<close>.\<close>

definition py_index :: "'a list \<Rightarrow> nat \<Rightarrow> pyexn + 'a" where
  "py_index xs i = (if i < length xs then Inr (xs ! i) else Inl IndexError)"

text \<open>\<^verbatim>\<open>s.replace(old, '')\<close>: every non-overlapping occurrence of \<open>old\<close>, from the
  left, is removed; with an empty \<open>old\<close> the string comes back as it is.\<close>

fun py_remove :: "string \<Rightarrow> string \<Rightarrow> string" where
  "py_remove old [] = []"
| "py_remove old (c # cs) =
     (if old \<noteq> [] \<and> take (length old) (c # cs) = old
      then py_remove old (drop (length old) (c # cs))
      else c # py_remove old cs)"

definition py_lstrip :: "char \<Rightarrow> string \<Rightarrow> string" where
  "py_lstrip ch s = dropWhile (\<lambda>c. c = ch) s"

definition py_rstrip :: "char \<Rightarrow> string \<Rightarrow> string" where
  "py_rstrip ch s = rev (dropWhile (\<lambda>c. c = ch) (rev s))"

definition py_strip :: "char \<Rightarrow> string \<Rightarrow> string" where
  "py_strip ch s = py_rstrip ch (py_lstrip ch s)"

text \<open>\<^verbatim>\<open>posixpath.dirname\<close>: the part up to the last slash, with trailing slashes
  removed unless it consists of slashes only.\<close>

definition dirname :: "path \<Rightarrow> path" where
  "dirname p =
     (let head = rev (dropWhile (\<lambda>c. c \<noteq> CHR ''/'') (rev p))
      in if head \<noteq> [] \<and> dropWhile (\<lambda>c. c = CHR ''/'') head \<noteq> []
         then py_rstrip (CHR ''/'') head else head)"

text \<open>True division \<^verbatim>\<open>a / b\<close>; floats are read as reals.\<close>

definition py_truediv :: "real \<Rightarrow> real \<Rightarrow> pyexn + real" where
  "py_truediv a b = (if b = 0 then Inl ZeroDivisionError else Inr (a / b))"

section \<open>The bucket, the local files and the record of what was done\<close>

text \<open>
  An object of the bucket has a body, the \<^verbatim>\<open>e_tag\<close> the store reports for it and the
  extra arguments it was stored with. A local path is a regular file with its bytes or a
  directory.
\<close>

record s3obj =
  body :: string
  e_tag :: string
  extras :: "(string \<times> string) list"

datatype fsnode = File string | Dir

text \<open>The requests made to boto3, with their arguments.\<close>

datatype call =
    Get key
  | CopyFrom key string "(string \<times> string) list"
  | Delete key
  | DownloadFile key path
  | UploadFile path key "(string \<times> string) list"

text \<open>One constructor per \<^verbatim>\<open>print\<close> statement of the module; the percentage each
  status line ends with is left out (inside a loop \<^verbatim>\<open>num_files\<close> is the length of
  a non-empty list, so that float division cannot fail).\<close>

datatype msg =
    SourceMissing key
  | DestinationExists key
  | Copying key key
  | MakingPublic
  | DoneRenaming nat nat
  | AttemptingDelete key string
  | DoneDeleting nat nat
  | UnableToDelete key pyexn
  | NotInBucket key pyexn
  | AlreadyDownloaded key
  | Overwriting path
  | CouldNotDownload key pyexn
  | Downloading key path
  | FinishedDownload nat nat
  | Uploading path string key
  | FinishedUpload nat nat

datatype event = Call call | Makedirs path | Print msg

text \<open>
  What the module does not decide is a parameter: the bucket's name, which requests the
  service or the network fails (\<open>fault\<close>, per request), \<^verbatim>\<open>hashlib.md5(..).hexdigest()\<close>,
  the ETag the store computes for uploaded bytes, and the size \<^verbatim>\<open>os.path.getsize\<close>
  gives for a directory.
\<close>

datatype fault = ClientFault | OtherFault

fun exn_of :: "fault \<Rightarrow> pyexn" where
  "exn_of ClientFault = ClientError"
| "exn_of OtherFault = LibraryError"

record env =
  bucket_name :: string
  fault :: "call \<Rightarrow> fault option"
  md5_hexdigest :: "string \<Rightarrow> string"
  etag_of :: "string \<Rightarrow> string"
  dir_size :: nat

record world =
  objs :: "key \<rightharpoonup> s3obj"
  files :: "path \<rightharpoonup> fsnode"
  trace :: "event list"

definition emit :: "event \<Rightarrow> world \<Rightarrow> world" where
  "emit ev w = w\<lparr>trace := trace w @ [ev]\<rparr>"

subsection \<open>boto3 requests\<close>

text \<open>
  Every request is written to the trace before it is answered. A request that \<open>fault\<close>
  names fails, the same way each time it is made; any other request is answered from the
  bucket's contents. Reading \<^verbatim>\<open>e_tag\<close> or \<^verbatim>\<open>content_length\<close> of an object that
  \<^verbatim>\<open>get()\<close> has found makes no request of its own here.
\<close>

text \<open>\<^verbatim>\<open>bucket.Object(key=k).get()\<close>: a missing key is a \<^verbatim>\<open>ClientError\<close>.\<close>

definition object_get :: "env \<Rightarrow> key \<Rightarrow> world \<Rightarrow> (pyexn + s3obj) \<times> world" where
  "object_get E k w =
     (let w' = emit (Call (Get k)) w in
      case fault E (Get k) of
        Some f \<Rightarrow> (Inl (exn_of f), w')
      | None \<Rightarrow> (case objs w k of
                   None \<Rightarrow> (Inl ClientError, w')
                 | Some ob \<Rightarrow> (Inr ob, w')))"

text \<open>\<^verbatim>\<open>dst_obj.copy_from(CopySource=bucket.name + '/' + src, [ACL=..])\<close>: the store reads
  the source key behind the bucket's name and the slash.\<close>

definition object_copy_from ::
  "env \<Rightarrow> key \<Rightarrow> string \<Rightarrow> (string \<times> string) list \<Rightarrow> world \<Rightarrow> (pyexn + unit) \<times> world" where
  "object_copy_from E dst copy_source args w =
     (let w' = emit (Call (CopyFrom dst copy_source args)) w in
      case fault E (CopyFrom dst copy_source args) of
        Some f \<Rightarrow> (Inl (exn_of f), w')
      | None \<Rightarrow>
          (case objs w (drop (length (bucket_name E) + 1) copy_source) of
             None \<Rightarrow> (Inl ClientError, w')
           | Some ob \<Rightarrow> (Inr (), w'\<lparr>objs := (objs w')(dst \<mapsto> ob\<lparr>extras := args\<rparr>)\<rparr>)))"

text \<open>\<^verbatim>\<open>bucket.Object(k).delete()\<close>: deleting an absent key succeeds.\<close>

definition object_delete :: "env \<Rightarrow> key \<Rightarrow> world \<Rightarrow> (pyexn + unit) \<times> world" where
  "object_delete E k w =
     (let w' = emit (Call (Delete k)) w in
      case fault E (Delete k) of
        Some f \<Rightarrow> (Inl (exn_of f), w')
      | None \<Rightarrow> (Inr (), w'\<lparr>objs := (objs w')(k := None)\<rparr>))"

text \<open>\<^verbatim>\<open>bucket.download_file(k, p)\<close> writes the body to the local path, which must not
  be empty or a directory; \<^verbatim>\<open>bucket.upload_file(src, dst, ExtraArgs=args)\<close> stores the
  bytes of a regular local file under the key, with the ETag the store computes.\<close>

definition bucket_download_file :: "env \<Rightarrow> key \<Rightarrow> path \<Rightarrow> world \<Rightarrow> (pyexn + unit) \<times> world" where
  "bucket_download_file E k p w =
     (let w' = emit (Call (DownloadFile k p)) w in
      case fault E (DownloadFile k p) of
        Some f \<Rightarrow> (Inl (exn_of f), w')
      | None \<Rightarrow>
          (case objs w k of
             None \<Rightarrow> (Inl ClientError, w')
           | Some ob \<Rightarrow>
               (if p = [] then (Inl OSError, w')
                else case files w p of
                  Some Dir \<Rightarrow> (Inl OSError, w')
                | _ \<Rightarrow> (Inr (), w'\<lparr>files := (files w')(p \<mapsto> File (body ob))\<rparr>))))"

definition bucket_upload_file ::
  "env \<Rightarrow> path \<Rightarrow> key \<Rightarrow> (string \<times> string) list \<Rightarrow> world \<Rightarrow> (pyexn + unit) \<times> world" where
  "bucket_upload_file E src dst args w =
     (let w' = emit (Call (UploadFile src dst args)) w in
      case fault E (UploadFile src dst args) of
        Some f \<Rightarrow> (Inl (exn_of f), w')
      | None \<Rightarrow>
          (case files w src of
             Some (File c) \<Rightarrow>
               (Inr (), w'\<lparr>objs := (objs w')(dst \<mapsto>
                  \<lparr>body = c, e_tag = etag_of E c, extras = args\<rparr>)\<rparr>)
           | _ \<Rightarrow> (Inl OSError, w')))"

subsection \<open>The local file system\<close>

text \<open>The empty path names nothing: \<^verbatim>\<open>os.path.exists('')\<close> is false.\<close>

definition path_exists :: "world \<Rightarrow> path \<Rightarrow> bool" where
  "path_exists w p = (p \<noteq> [] \<and> files w p \<noteq> None)"

definition path_isdir :: "world \<Rightarrow> path \<Rightarrow> bool" where
  "path_isdir w p = (p \<noteq> [] \<and> files w p = Some Dir)"

text \<open>\<^verbatim>\<open>os.path.getsize(p)\<close>.\<close>

definition path_getsize :: "env \<Rightarrow> world \<Rightarrow> path \<Rightarrow> pyexn + nat" where
  "path_getsize E w p =
     (if p = [] then Inl OSError
      else case files w p of
             None \<Rightarrow> Inl OSError
           | Some (File c) \<Rightarrow> Inr (length c)
           | Some Dir \<Rightarrow> Inr (dir_size E))"

text \<open>\<^verbatim>\<open>open(p, 'rb').read()\<close>.\<close>

definition read_file :: "world \<Rightarrow> path \<Rightarrow> pyexn + string" where
  "read_file w p =
     (if p = [] then Inl OSError
      else case files w p of Some (File c) \<Rightarrow> Inr c | _ \<Rightarrow> Inl OSError)"

text \<open>\<^verbatim>\<open>os.makedirs(d)\<close> creates \<open>d\<close> and the ancestors it lacks; the empty path and a
  path that exists already raise.\<close>

fun mkdirs :: "nat \<Rightarrow> path \<Rightarrow> (path \<rightharpoonup> fsnode) \<Rightarrow> (path \<rightharpoonup> fsnode)" where
  "mkdirs 0 d fs = fs"
| "mkdirs (Suc n) d fs =
     (if d = [] \<or> fs d \<noteq> None then fs else (mkdirs n (dirname d) fs)(d \<mapsto> Dir))"

definition os_makedirs :: "path \<Rightarrow> world \<Rightarrow> (pyexn + unit) \<times> world" where
  "os_makedirs d w =
     (let w' = emit (Makedirs d) w in
      if d = [] \<or> files w d \<noteq> None then (Inl OSError, w')
      else (Inr (), w'\<lparr>files := mkdirs (length d) d (files w')\<rparr>))"

section \<open>ProgressPercentage\<close>

text \<open>
  The constructor takes anything with a \<^verbatim>\<open>content_length\<close>, anything with a
  \<^verbatim>\<open>size\<close>, or a local path, in this order. \<^verbatim>\<open>__call__\<close> adds the bytes received
  and writes the running total, the size and the percentage; the lock serialises the calls,
  so a call is one step on the tracker.
\<close>

datatype filename_arg = WithContentLength nat | WithSize nat | LocalPath path

record ProgressPercentage =
  size_total :: real
  seen_so_far :: int

definition ProgressPercentage_init ::
  "env \<Rightarrow> world \<Rightarrow> filename_arg \<Rightarrow> pyexn + ProgressPercentage" where
  "ProgressPercentage_init E w filename =
     (case filename of
        WithContentLength n \<Rightarrow> Inr \<lparr>size_total = real n, seen_so_far = 0\<rparr>
      | WithSize n \<Rightarrow> Inr \<lparr>size_total = real n, seen_so_far = 0\<rparr>
      | LocalPath p \<Rightarrow>
          (case path_getsize E w p of
             Inl e \<Rightarrow> Inl e
           | Inr n \<Rightarrow> Inr \<lparr>size_total = real n, seen_so_far = 0\<rparr>))"

record progress_line =
  delivered :: int
  total :: real
  percentage :: real

definition ProgressPercentage_call ::
  "ProgressPercentage \<Rightarrow> int \<Rightarrow> (pyexn + progress_line) \<times> ProgressPercentage" where
  "ProgressPercentage_call t bytes_amount =
     (let t' = t\<lparr>seen_so_far := seen_so_far t + bytes_amount\<rparr> in
      if size_total t' \<noteq> 0 then
        (case py_truediv (real_of_int (seen_so_far t')) (size_total t') of
           Inl e \<Rightarrow> (Inl e, t')
         | Inr q \<Rightarrow>
             (Inr \<lparr>delivered = seen_so_far t', total = size_total t', percentage = q * 100\<rparr>, t'))
      else
        (Inr \<lparr>delivered = seen_so_far t', total = size_total t', percentage = 0\<rparr>, t'))"

text \<open>The lines a transfer writes when it calls the tracker once per chunk.\<close>

fun progress_lines :: "ProgressPercentage \<Rightarrow> int list \<Rightarrow> (pyexn + progress_line) list" where
  "progress_lines t [] = []"
| "progress_lines t (b # bs) =
     (case ProgressPercentage_call t b of
        (Inl e, t') \<Rightarrow> [Inl e]
      | (Inr l, t') \<Rightarrow> Inr l # progress_lines t' bs)"

section \<open>Loops over enumerate\<close>

text \<open>A \<^verbatim>\<open>for\<close> loop: the loop body runs on each item in order; \<^verbatim>\<open>continue\<close> and the end
  of the loop body both give \<open>Done\<close>, a raise leaves the loop with the world as it is then.\<close>

fun for_each ::
  "('a \<Rightarrow> world \<Rightarrow> outcome \<times> world) \<Rightarrow> 'a list \<Rightarrow> world \<Rightarrow> outcome \<times> world" where
  "for_each step [] w = (Done, w)"
| "for_each step (x # xs) w =
     (case step x w of
        (Raised e, w') \<Rightarrow> (Raised e, w')
      | (Done, w') \<Rightarrow> for_each step xs w')"

text \<open>The loop over \<open>items\<close>, started in \<open>w\<close>, gets to the item at position \<open>idx\<close> in the
  world \<open>wi\<close>: the items before it have run without raising and have left \<open>wi\<close>.\<close>

definition reaches ::
  "('a \<Rightarrow> world \<Rightarrow> outcome \<times> world) \<Rightarrow> 'a list \<Rightarrow> world \<Rightarrow> nat \<Rightarrow> world \<Rightarrow> bool" where
  "reaches step items w idx wi = (for_each step (take idx items) w = (Done, wi))"

section \<open>s3\_delete\<close>

text \<open>The whole body of the loop is inside \<^verbatim>\<open>try\<close> with \<^verbatim>\<open>except Exception\<close>: an
  item never raises.\<close>

definition delete_item :: "env \<Rightarrow> nat \<Rightarrow> nat \<times> key \<Rightarrow> world \<Rightarrow> outcome \<times> world" where
  "delete_item E num_files item w =
     (case item of (idx, bkey) \<Rightarrow>
        (let w1 = emit (Print (AttemptingDelete bkey (bucket_name E))) w in
         case object_delete E bkey w1 of
           (Inr u, w2) \<Rightarrow> (Done, emit (Print (DoneDeleting (idx + 1) num_files)) w2)
         | (Inl exc, w2) \<Rightarrow> (Done, emit (Print (UnableToDelete bkey exc)) w2)))"

definition s3_delete :: "env \<Rightarrow> key list \<Rightarrow> world \<Rightarrow> outcome \<times> world" where
  "s3_delete E bucket_keys w =
     (let num_files = length bucket_keys in
      for_each (delete_item E num_files) (List.enumerate 0 bucket_keys) w)"

section \<open>s3\_rename\<close>

text \<open>The text of a list inside a message (Python's \<^verbatim>\<open>repr\<close>, without its quoting).
  The message of the second check formats \<^verbatim>\<open>{0}\<close> twice, so it shows the source
  list in both places.\<close>

definition str_list :: "string list \<Rightarrow> string" where
  "str_list xs = ''['' @ concat (map (\<lambda>x. x @ '','') xs) @ '']''"

text \<open>One pass of the loop: the source is looked up (\<^verbatim>\<open>ClientError\<close>: skip), then
  the destination (found: skip); only in the \<^verbatim>\<open>except ClientError\<close> of the second
  lookup come the copy and, unless \<^verbatim>\<open>keep_old\<close>, the delete. Neither of them is
  guarded.\<close>

definition rename_item ::
  "env \<Rightarrow> key list \<Rightarrow> bool \<Rightarrow> bool \<Rightarrow> nat \<Rightarrow> nat \<times> key \<Rightarrow> world \<Rightarrow> outcome \<times> world" where
  "rename_item E dst_list keep_old make_public num_files item w =
     (case item of (idx, src_f) \<Rightarrow>
        (case object_get E src_f w of
           (Inl e, w1) \<Rightarrow>
             (if e = ClientError then (Done, emit (Print (SourceMissing src_f)) w1)
              else (Raised e, w1))
         | (Inr src_key, w1) \<Rightarrow>
             (case py_index dst_list idx of
                Inl e \<Rightarrow> (Raised e, w1)
              | Inr dst_key \<Rightarrow>
                  (case object_get E dst_key w1 of
                     (Inr dst_obj, w2) \<Rightarrow> (Done, emit (Print (DestinationExists dst_key)) w2)
                   | (Inl e, w2) \<Rightarrow>
                       (if e \<noteq> ClientError then (Raised e, w2)
                        else
                          (let w3 = emit (Print (Copying src_f dst_key)) w2;
                               w4 = (if make_public then emit (Print MakingPublic) w3 else w3);
                               args = (if make_public then [(''ACL'', ''public-read'')] else [])
                           in case object_copy_from E dst_key (bucket_name E @ ''/'' @ src_f) args w4 of
                                (Inl e, w5) \<Rightarrow> (Raised e, w5)
                              | (Inr u, w5) \<Rightarrow>
                                  (case (if \<not> keep_old then object_delete E src_f w5 else (Inr (), w5)) of
                                     (Inl e, w6) \<Rightarrow> (Raised e, w6)
                                   | (Inr u, w6) \<Rightarrow>
                                       (Done, emit (Print (DoneRenaming (idx + 1) num_files)) w6))))))))"

definition s3_rename ::
  "env \<Rightarrow> key list \<times> key list \<Rightarrow> bool \<Rightarrow> bool \<Rightarrow> world \<Rightarrow> outcome \<times> world" where
  "s3_rename E src_dst_tuple keep_old make_public w =
     (let src_list = fst src_dst_tuple; dst_list = snd src_dst_tuple in
      if length src_list \<noteq> length dst_list
      then (Raised (ValueError ''src_list and dst_list are different lengths!''), w)
      else
        (let num_files = length src_list in
         if num_files \<noteq> length dst_list
         then (Raised (RuntimeError (''src_list '' @ str_list src_list @ '' and dst_list ''
                 @ str_list src_list @ '' must be the same length'')), w)
         else for_each (rename_item E dst_list keep_old make_public num_files)
                (List.enumerate 0 src_list) w))"

section \<open>s3\_download\<close>

text \<open>\<^verbatim>\<open>bucket.download_file(k, p, Callback=ProgressPercentage(filename))\<close>: the tracker
  is built while the arguments are evaluated, before the request is made. The progress
  lines a transfer writes are not part of the trace.\<close>

definition download_file ::
  "env \<Rightarrow> key \<Rightarrow> path \<Rightarrow> filename_arg \<Rightarrow> world \<Rightarrow> (pyexn + unit) \<times> world" where
  "download_file E k p filename w =
     (case ProgressPercentage_init E w filename of
        Inl e \<Rightarrow> (Inl e, w)
      | Inr callback \<Rightarrow> bucket_download_file E k p w)"

text \<open>One pass of the loop. Only the download that overwrites an existing file is inside
  \<^verbatim>\<open>try\<close> with \<^verbatim>\<open>except Exception\<close>; the download to a fresh path is not. The
  function does not compare the lengths of its two lists.\<close>

definition download_item ::
  "env \<Rightarrow> path list \<Rightarrow> nat \<Rightarrow> nat \<times> key \<Rightarrow> world \<Rightarrow> outcome \<times> world" where
  "download_item E local_files num_files item w =
     (case item of (idx, bkey) \<Rightarrow>
        (case object_get E bkey w of
           (Inl exc, w1) \<Rightarrow>
             (if exc = ClientError then (Done, emit (Print (NotInBucket bkey exc)) w1)
              else (Raised exc, w1))
         | (Inr bobj, w1) \<Rightarrow>
             (let s3_md5 = py_strip (CHR 0x22) (e_tag bobj) in
              case py_index local_files idx of
                Inl e \<Rightarrow> (Raised e, w1)
              | Inr local_path \<Rightarrow>
                  (case (if \<not> path_exists w1 (dirname local_path)
                         then os_makedirs (dirname local_path) w1 else (Inr (), w1)) of
                     (Inl e, w2) \<Rightarrow> (Raised e, w2)
                   | (Inr u, w2) \<Rightarrow>
                       (if path_exists w2 local_path then
                          (if path_isdir w2 local_path then (Done, w2)
                           else
                             (case read_file w2 local_path of
                                Inl e \<Rightarrow> (Raised e, w2)
                              | Inr in_read \<Rightarrow>
                                  (let local_md5 = md5_hexdigest E in_read;
                                       w4 =
                                         (if local_md5 = s3_md5
                                          then emit (Print (AlreadyDownloaded bkey)) w2
                                          else
                                            (case download_file E bkey local_path
                                                    (WithContentLength (length (body bobj)))
                                                    (emit (Print (Overwriting local_path)) w2) of
                                               (Inl exc, w3) \<Rightarrow>
                                                 emit (Print (CouldNotDownload bkey exc)) w3
                                             | (Inr u, w3) \<Rightarrow> w3))
                                   in (Done, emit (Print (FinishedDownload (idx + 1) num_files)) w4))))
                        else
                          (case download_file E bkey local_path
                                  (WithContentLength (length (body bobj)))
                                  (emit (Print (Downloading bkey local_path)) w2) of
                             (Inl e, w3) \<Rightarrow> (Raised e, w3)
                           | (Inr u, w3) \<Rightarrow>
                               (Done, emit (Print (FinishedDownload (idx + 1) num_files)) w3)))))))"

definition s3_download :: "env \<Rightarrow> key list \<times> path list \<Rightarrow> world \<Rightarrow> outcome \<times> world" where
  "s3_download E s3_local_tuple w =
     (let s3_list = fst s3_local_tuple;
          local_files = snd s3_local_tuple;
          num_files = length s3_list
      in for_each (download_item E local_files num_files) (List.enumerate 0 s3_list) w)"

section \<open>s3\_upload\<close>

definition s3_str :: string where
  "s3_str = ''s3://''"

text \<open>The check for the \<^verbatim>\<open>s3://\<close> prefix at the head of the loop: an \<^verbatim>\<open>if\<close> on the
  source and an \<^verbatim>\<open>elif\<close> on the destination.\<close>

definition strip_bucket :: "string \<Rightarrow> pyexn + string" where
  "strip_bucket f =
     (case py_index (py_split (CHR ''/'') f) 2 of
        Inl e \<Rightarrow> Inl e
      | Inr bkt \<Rightarrow> Inr (py_lstrip (CHR ''/'') (py_remove (s3_str @ bkt) f)))"

definition check_s3_prefix :: "path \<Rightarrow> key \<Rightarrow> pyexn + (path \<times> key)" where
  "check_s3_prefix src_file dst_file =
     (if startswith src_file s3_str then
        (case strip_bucket src_file of Inl e \<Rightarrow> Inl e | Inr src_file' \<Rightarrow> Inr (src_file', dst_file))
      else if startswith dst_file s3_str then
        (case strip_bucket dst_file of Inl e \<Rightarrow> Inl e | Inr dst_file' \<Rightarrow> Inr (src_file, dst_file'))
      else Inr (src_file, dst_file))"

text \<open>\<^verbatim>\<open>bucket.upload_file(src, dst, ExtraArgs=.., Callback=ProgressPercentage(src))\<close>:
  the tracker asks for the size of the local file first.\<close>

definition upload_file ::
  "env \<Rightarrow> path \<Rightarrow> key \<Rightarrow> (string \<times> string) list \<Rightarrow> world \<Rightarrow> (pyexn + unit) \<times> world" where
  "upload_file E src dst args w =
     (case ProgressPercentage_init E w (LocalPath src) of
        Inl e \<Rightarrow> (Inl e, w)
      | Inr callback \<Rightarrow> bucket_upload_file E src dst args w)"

text \<open>The body of the \<^verbatim>\<open>try\<close>.\<close>

definition upload_try ::
  "env \<Rightarrow> path \<Rightarrow> key \<Rightarrow> (string \<times> string) list \<Rightarrow> world \<Rightarrow> (pyexn + unit) \<times> world" where
  "upload_try E src_file dst_file extra_args w =
     (case object_get E dst_file w of
        (Inl e, w1) \<Rightarrow> (Inl e, w1)
      | (Inr dst_key, w1) \<Rightarrow>
          (let dst_md5 = py_strip (CHR 0x22) (e_tag dst_key) in
           case read_file w1 src_file of
             Inl e \<Rightarrow> (Inl e, w1)
           | Inr src_read \<Rightarrow>
               (let src_md5 = md5_hexdigest E src_read in
                if src_md5 \<noteq> dst_md5 then upload_file E src_file dst_file extra_args w1
                else (Inr (), w1))))"

definition upload_item ::
  "env \<Rightarrow> key list \<Rightarrow> (string \<times> string) list \<Rightarrow> nat \<Rightarrow> nat \<times> path \<Rightarrow> world \<Rightarrow> outcome \<times> world" where
  "upload_item E s3_list extra_args num_files item w =
     (case item of (idx, src_file0) \<Rightarrow>
        (case py_index s3_list idx of
           Inl e \<Rightarrow> (Raised e, w)
         | Inr dst_file0 \<Rightarrow>
             (case check_s3_prefix src_file0 dst_file0 of
                Inl e \<Rightarrow> (Raised e, w)
              | Inr (src_file, dst_file) \<Rightarrow>
                  (case upload_try E src_file dst_file extra_args
                          (emit (Print (Uploading src_file (bucket_name E) dst_file)) w) of
                     (Inr u, w2) \<Rightarrow> (Done, emit (Print (FinishedUpload (idx + 1) num_files)) w2)
                   | (Inl e, w2) \<Rightarrow>
                       (if e \<noteq> ClientError then (Raised e, w2)
                        else
                          (case upload_file E src_file dst_file extra_args w2 of
                             (Inl e', w3) \<Rightarrow> (Raised e', w3)
                           | (Inr u, w3) \<Rightarrow>
                               (Done, emit (Print (FinishedUpload (idx + 1) num_files)) w3)))))))"

definition s3_upload ::
  "env \<Rightarrow> path list \<times> key list \<Rightarrow> bool \<Rightarrow> bool \<Rightarrow> world \<Rightarrow> outcome \<times> world" where
  "s3_upload E local_s3_tuple make_public encrypt w =
     (let local_list = fst local_s3_tuple;
          s3_list = snd local_s3_tuple;
          num_files = length local_list;
          extra_args =
            (if make_public then [(''ACL'', ''public-read'')] else []) @
            (if encrypt then [(''ServerSideEncryption'', ''AES256'')] else [])
      in if num_files \<noteq> length s3_list
         then (Raised (RuntimeError ''local_list and s3_list must be the same length!''), w)
         else for_each (upload_item E s3_list extra_args num_files)
                (List.enumerate 0 local_list) w)"

section \<open>Reading the trace\<close>

definition calls_of :: "event list \<Rightarrow> call list" where
  "calls_of es = concat (map (\<lambda>e. case e of Call c \<Rightarrow> [c] | _ \<Rightarrow> []) es)"

definition prints_of :: "event list \<Rightarrow> msg list" where
  "prints_of es = concat (map (\<lambda>e. case e of Print m \<Rightarrow> [m] | _ \<Rightarrow> []) es)"

text \<open>The events a run added to the trace it started from.\<close>

definition added :: "world \<Rightarrow> world \<Rightarrow> event list" where
  "added w w' = drop (length (trace w)) (trace w')"

fun is_transfer :: "call \<Rightarrow> bool" where
  "is_transfer (DownloadFile k p) = True"
| "is_transfer (UploadFile p k a) = True"
| "is_transfer c = False"


definition delete_failures :: "event list \<Rightarrow> (key \<times> pyexn) list" where
  "delete_failures es =
     concat (map (\<lambda>e. case e of Print (UnableToDelete k x) \<Rightarrow> [(k, x)] | _ \<Rightarrow> []) es)"

definition expected_failures :: "env \<Rightarrow> key list \<Rightarrow> (key \<times> pyexn) list" where
  "expected_failures E ks =
     concat (map (\<lambda>k. case fault E (Delete k) of None \<Rightarrow> [] | Some f \<Rightarrow> [(k, exn_of f)]) ks)"

section \<open>A sample bucket and sample local files\<close>

text \<open>A small environment on which the functions are run: a stand-in for MD5, a store
  that reports the quoted checksum as the ETag, and one request that may be made to fail.\<close>

definition sample_md5 :: "string \<Rightarrow> string" where
  "sample_md5 c = ''md5-'' @ c"

definition sample_etag :: "string \<Rightarrow> string" where
  "sample_etag c = [CHR 0x22] @ sample_md5 c @ [CHR 0x22]"

definition sample_env :: "(call \<Rightarrow> fault option) \<Rightarrow> env" where
  "sample_env f = \<lparr>bucket_name = ''bkt'', fault = f, md5_hexdigest = sample_md5,
                   etag_of = sample_etag, dir_size = 4096\<rparr>"

definition sample_obj :: "string \<Rightarrow> s3obj" where
  "sample_obj c = \<lparr>body = c, e_tag = sample_etag c, extras = []\<rparr>"

definition no_fault :: "call \<Rightarrow> fault option" where
  "no_fault c = None"

definition fault_on :: "call \<Rightarrow> fault \<Rightarrow> call \<Rightarrow> fault option" where
  "fault_on c0 f c = (if c = c0 then Some f else None)"

definition sample_world :: world where
  "sample_world =
     \<lparr>objs = [''a'' \<mapsto> sample_obj ''A'', ''b'' \<mapsto> sample_obj ''B''],
      files = [''/tmp'' \<mapsto> Dir, ''/tmp/x'' \<mapsto> File ''X'', ''tmp/x'' \<mapsto> File ''X'',
               ''out'' \<mapsto> Dir],
      trace = []\<rparr>"

section \<open>Basic facts\<close>

lemmas request_defs =
  object_get_def object_copy_from_def object_delete_def bucket_download_file_def
  bucket_upload_file_def download_file_def upload_file_def ProgressPercentage_init_def
  path_getsize_def read_file_def path_exists_def path_isdir_def os_makedirs_def py_index_def

lemmas sample_defs =
  sample_env_def sample_world_def sample_obj_def sample_etag_def sample_md5_def no_fault_def
  fault_on_def

lemmas string_defs =
  startswith_def s3_str_def strip_bucket_def check_s3_prefix_def py_strip_def py_lstrip_def
  py_rstrip_def dirname_def

lemma trace_emit [simp]: "trace (emit ev w) = trace w @ [ev]"
  and objs_emit [simp]: "objs (emit ev w) = objs w"
  and files_emit [simp]: "files (emit ev w) = files w"
  by (simp_all add: emit_def)

lemma calls_of_simps [simp]:
  "calls_of [] = []"
  "calls_of (Call c # es) = c # calls_of es"
  "calls_of (Print m # es) = calls_of es"
  "calls_of (Makedirs d # es) = calls_of es"
  "calls_of (xs @ ys) = calls_of xs @ calls_of ys"
  by (simp_all add: calls_of_def)

lemma delete_failures_append [simp]:
  "delete_failures (xs @ ys) = delete_failures xs @ delete_failures ys"
  by (simp add: delete_failures_def)

lemma added_append [simp]: "trace w' = trace w @ es \<Longrightarrow> added w w' = es"
  by (simp add: added_def)

lemma exn_of_cases: "exn_of f = ClientError \<or> exn_of f = LibraryError"
  by (cases f) simp_all

lemma for_each_single: "for_each step [x] w = step x w"
  by (cases "step x w") (auto split: outcome.splits)

lemma for_each_raises:
  assumes "\<And>x w w'. step x w = (Raised e, w') \<Longrightarrow> P"
    and "for_each step xs w = (Raised e, w')"
  shows P
  using assms(2)
proof (induction xs arbitrary: w)
  case Nil
  then show ?case by simp
next
  case (Cons x xs)
  then show ?case
    using assms(1) by (auto split: prod.splits outcome.splits)
qed

text \<open>A loop that gets to an item runs it in the world it got there with, and goes on
  with the items after it unless the item raises.\<close>

lemma for_each_append:
  "for_each step (xs @ ys) w =
     (case for_each step xs w of
        (Raised e, w') \<Rightarrow> (Raised e, w')
      | (Done, w') \<Rightarrow> for_each step ys w')"
  by (induction xs arbitrary: w) (auto split: prod.splits outcome.splits)

lemma for_each_reaches:
  assumes "idx < length items" and "reaches step items w idx wi"
  shows "for_each step items w =
     (case step (items ! idx) wi of
        (Raised e, w') \<Rightarrow> (Raised e, w')
      | (Done, wj) \<Rightarrow> for_each step (drop (Suc idx) items) wj)"
proof -
  have "items = take idx items @ items ! idx # drop (Suc idx) items"
    using assms(1) by (simp add: id_take_nth_drop)
  then have "for_each step items w =
      for_each step (take idx items @ items ! idx # drop (Suc idx) items) w"
    by simp
  also have "\<dots> = for_each step (items ! idx # drop (Suc idx) items) wi"
    using assms(2) by (simp add: for_each_append reaches_def)
  finally show ?thesis by simp
qed

lemma reaches_first [simp]: "reaches step items w 0 wi = (wi = w)"
  by (auto simp: reaches_def)


lemma s3_download_single:
  "s3_download E ([k], ps) w = download_item E ps 1 (0, k) w"
  by (simp add: s3_download_def for_each_single del: for_each.simps)

lemma s3_upload_single:
  "s3_upload E ([s], [d]) make_public encrypt w =
     upload_item E [d]
       ((if make_public then [(''ACL'', ''public-read'')] else []) @
        (if encrypt then [(''ServerSideEncryption'', ''AES256'')] else [])) 1 (0, s) w"
  by (simp add: s3_upload_def for_each_single Let_def del: for_each.simps)

text \<open>A batch that gets to a pair is the pass for that pair followed by the rest of the
  batch.\<close>

lemma s3_rename_reaches:
  assumes "length src_list = length dst_list" and "idx < length src_list"
    and "reaches (rename_item E dst_list keep_old make_public (length src_list))
           (List.enumerate 0 src_list) w idx wi"
  shows "s3_rename E (src_list, dst_list) keep_old make_public w =
     (case rename_item E dst_list keep_old make_public (length src_list) (idx, src_list ! idx) wi of
        (Raised e, w') \<Rightarrow> (Raised e, w')
      | (Done, wj) \<Rightarrow>
          for_each (rename_item E dst_list keep_old make_public (length src_list))
            (drop (Suc idx) (List.enumerate 0 src_list)) wj)"
  using assms for_each_reaches [OF _ assms(3)]
  by (simp add: s3_rename_def nth_enumerate_eq)

lemma s3_upload_reaches:
  assumes "length local_list = length s3_list" and "idx < length local_list"
    and "extra = (if make_public then [(''ACL'', ''public-read'')] else []) @
                 (if encrypt then [(''ServerSideEncryption'', ''AES256'')] else [])"
    and "reaches (upload_item E s3_list extra (length local_list))
           (List.enumerate 0 local_list) w idx wi"
  shows "s3_upload E (local_list, s3_list) make_public encrypt w =
     (case upload_item E s3_list extra (length local_list) (idx, local_list ! idx) wi of
        (Raised e, w') \<Rightarrow> (Raised e, w')
      | (Done, wj) \<Rightarrow>
          for_each (upload_item E s3_list extra (length local_list))
            (drop (Suc idx) (List.enumerate 0 local_list)) wj)"
  using assms(1,2) for_each_reaches [OF _ assms(4)]
  by (simp add: s3_upload_def nth_enumerate_eq assms(3) Let_def)

section \<open>Lists of different lengths\<close>

text \<open>\<^verbatim>\<open>s3_rename\<close> and \<^verbatim>\<open>s3_upload\<close> refuse lists of different lengths before they
  touch anything.\<close>

lemma unequal_lengths_rejected:
  assumes "length xs \<noteq> length ys"
  shows "s3_rename E (xs, ys) keep_old make_public w =
           (Raised (ValueError ''src_list and dst_list are different lengths!''), w)"
    and "s3_upload E (xs, ys) make_public encrypt w =
           (Raised (RuntimeError ''local_list and s3_list must be the same length!''), w)"
  using assms by (simp_all add: s3_rename_def s3_upload_def Let_def)

text \<open>
  Claim C1 says that every bulk operation reports lists of different lengths at once and
  processes nothing. \<^verbatim>\<open>s3_download\<close> has no such check: with one key and two local
  paths it returns normally, having made the download request and written the file
  \<^verbatim>\<open>/tmp/a\<close>.
\<close>

theorem download_unequal_lengths_run:
  "fst (s3_download (sample_env no_fault) ([''a''], [''/tmp/a'', ''/tmp/b'']) sample_world) = Done
   \<and> calls_of (trace (snd (s3_download (sample_env no_fault) ([''a''], [''/tmp/a'', ''/tmp/b''])
        sample_world))) = [Get ''a'', DownloadFile ''a'' ''/tmp/a'']
   \<and> files (snd (s3_download (sample_env no_fault) ([''a''], [''/tmp/a'', ''/tmp/b''])
        sample_world)) ''/tmp/a'' = Some (File ''A'')"
  by (simp add: s3_download_def download_item_def request_defs sample_defs string_defs Let_def)

text \<open>With two keys and one local path the first file is downloaded before the second
  pass raises \<^verbatim>\<open>IndexError\<close>.\<close>

lemma download_short_local_list_run:
  "fst (s3_download (sample_env no_fault) ([''a'', ''b''], [''/tmp/a'']) sample_world)
     = Raised IndexError
   \<and> calls_of (trace (snd (s3_download (sample_env no_fault) ([''a'', ''b''], [''/tmp/a''])
        sample_world))) = [Get ''a'', DownloadFile ''a'' ''/tmp/a'', Get ''b'']"
  by (simp add: s3_download_def download_item_def request_defs sample_defs string_defs Let_def)

section \<open>Upload: the decision for one pair\<close>

lemma upload_item_unfold:
  assumes "idx < length s3_list"
    and "check_s3_prefix src0 (s3_list ! idx) = Inr (src, dst)"
  shows "upload_item E s3_list extra n (idx, src0) w =
    (case upload_try E src dst extra (emit (Print (Uploading src (bucket_name E) dst)) w) of
       (Inr u, w2) \<Rightarrow> (Done, emit (Print (FinishedUpload (idx + 1) n)) w2)
     | (Inl e, w2) \<Rightarrow>
         (if e \<noteq> ClientError then (Raised e, w2)
          else (case upload_file E src dst extra w2 of
                  (Inl e', w3) \<Rightarrow> (Raised e', w3)
                | (Inr u, w3) \<Rightarrow> (Done, emit (Print (FinishedUpload (idx + 1) n)) w3))))"
  using assms by (simp add: upload_item_def py_index_def)

lemma upload_file_result:
  assumes "src \<noteq> []" and "files w src = Some (File c)"
  shows "upload_file E src dst extra w =
    (case fault E (UploadFile src dst extra) of
       Some f \<Rightarrow> (Inl (exn_of f), emit (Call (UploadFile src dst extra)) w)
     | None \<Rightarrow> (Inr (), (emit (Call (UploadFile src dst extra)) w)
          \<lparr>objs := (objs w)(dst \<mapsto> \<lparr>body = c, e_tag = etag_of E c, extras = extra\<rparr>)\<rparr>))"
  using assms
  by (simp add: upload_file_def ProgressPercentage_init_def path_getsize_def
        bucket_upload_file_def Let_def split: option.splits)

text \<open>
  Claim C2 says that any failure of the lookup of the destination key is treated as
  not-found. The handler is \<^verbatim>\<open>except ClientError\<close>: when the lookup fails with another
  exception (here a connection error), the exception leaves \<^verbatim>\<open>s3_upload\<close> and nothing
  is uploaded.
\<close>

theorem upload_lookup_failure_counterexample:
  "fst (object_get (sample_env (fault_on (Get ''d/x'') OtherFault)) ''d/x'' sample_world)
     = Inl LibraryError
   \<and> fst (s3_upload (sample_env (fault_on (Get ''d/x'') OtherFault)) ([''/tmp/x''], [''d/x''])
        False False sample_world) = Raised LibraryError
   \<and> calls_of (trace (snd (s3_upload (sample_env (fault_on (Get ''d/x'') OtherFault))
        ([''/tmp/x''], [''d/x'']) False False sample_world))) = [Get ''d/x'']"
  by (simp add: s3_upload_def upload_item_def upload_try_def request_defs sample_defs string_defs Let_def)

text \<open>
  One pass of the upload loop, run in any world, for a pair whose local file is a regular
  file with content \<open>c\<close> (\<open>src\<close> and \<open>dst\<close> are the paths after the prefix check):
  \<^item> when the lookup of the destination raises \<^verbatim>\<open>ClientError\<close> (the key is absent, or the
    service answers with any other error), the requests made are the lookup and the
    upload, whatever the checksums; when the upload succeeds the destination holds \<open>c\<close>;
  \<^item> when the lookup raises another exception, that exception is raised, nothing is
    uploaded and the bucket is as before;
  \<^item> when the destination exists and the MD5 of \<open>c\<close> equals its ETag without the quotes,
    the only request is the lookup and the bucket is as before (the pair is skipped);
  \<^item> when the destination exists and the two differ, the upload follows the lookup;
  \<^item> when neither the lookup nor the upload is made to fail and the store reports the MD5
    of what it stores as the ETag, the pass succeeds, and a second pass on the world it
    leaves makes the lookup only and changes nothing in the bucket.
\<close>

lemma upload_item_decision:
  assumes "idx < length s3_list"
    and "check_s3_prefix src0 (s3_list ! idx) = Inr (src, dst)"
    and "src \<noteq> []"
    and "files w src = Some (File c)"
    and "r = upload_item E s3_list extra n (idx, src0) w"
    and "new = \<lparr>body = c, e_tag = etag_of E c, extras = extra\<rparr>"
  shows
    "(fst (object_get E dst w) = Inl ClientError \<longrightarrow>
        calls_of (added w (snd r)) = [Get dst, UploadFile src dst extra]
        \<and> (fault E (UploadFile src dst extra) = None \<longrightarrow>
              fst r = Done \<and> objs (snd r) = (objs w)(dst \<mapsto> new)))
     \<and> (fst (object_get E dst w) = Inl LibraryError \<longrightarrow>
        fst r = Raised LibraryError \<and> calls_of (added w (snd r)) = [Get dst]
        \<and> objs (snd r) = objs w)
     \<and> (\<forall>ob. fst (object_get E dst w) = Inr ob
             \<and> md5_hexdigest E c = py_strip (CHR 0x22) (e_tag ob) \<longrightarrow>
        fst r = Done \<and> calls_of (added w (snd r)) = [Get dst] \<and> objs (snd r) = objs w)
     \<and> (\<forall>ob. fst (object_get E dst w) = Inr ob
             \<and> md5_hexdigest E c \<noteq> py_strip (CHR 0x22) (e_tag ob) \<longrightarrow>
        take 2 (calls_of (added w (snd r))) = [Get dst, UploadFile src dst extra]
        \<and> (fault E (UploadFile src dst extra) = None \<longrightarrow>
              fst r = Done \<and> objs (snd r) = (objs w)(dst \<mapsto> new)))
     \<and> (fault E (Get dst) = None \<and> fault E (UploadFile src dst extra) = None
          \<and> py_strip (CHR 0x22) (etag_of E c) = md5_hexdigest E c \<longrightarrow>
        fst r = Done
        \<and> fst (upload_item E s3_list extra n (idx, src0) (snd r)) = Done
        \<and> calls_of (added (snd r) (snd (upload_item E s3_list extra n (idx, src0) (snd r))))
            = [Get dst]
        \<and> objs (snd (upload_item E s3_list extra n (idx, src0) (snd r))) = objs (snd r))"
proof -
  note unf = upload_item_unfold [OF assms(1,2)]
  have up: "\<And>v. files v src = Some (File c) \<Longrightarrow> upload_file E src dst extra v =
    (case fault E (UploadFile src dst extra) of
       Some f \<Rightarrow> (Inl (exn_of f), emit (Call (UploadFile src dst extra)) v)
     | None \<Rightarrow> (Inr (), (emit (Call (UploadFile src dst extra)) v)
          \<lparr>objs := (objs v)(dst \<mapsto> \<lparr>body = c, e_tag = etag_of E c, extras = extra\<rparr>)\<rparr>))"
    using upload_file_result [OF assms(3)] by blast
  have rd: "\<And>v. files v src = Some (File c) \<Longrightarrow> read_file v src = Inr c"
    using assms(3) by (simp add: read_file_def)
  have p1: "fst (object_get E dst w) = Inl ClientError \<longrightarrow>
        calls_of (added w (snd r)) = [Get dst, UploadFile src dst extra]
        \<and> (fault E (UploadFile src dst extra) = None \<longrightarrow>
              fst r = Done \<and> objs (snd r) = (objs w)(dst \<mapsto> new))"
    using assms(4)
    by (cases "fault E (UploadFile src dst extra)")
       (auto simp: assms(5,6) unf upload_try_def object_get_def up rd Let_def added_def
          emit_def split: option.splits)
  have p2: "fst (object_get E dst w) = Inl LibraryError \<longrightarrow>
        fst r = Raised LibraryError \<and> calls_of (added w (snd r)) = [Get dst]
        \<and> objs (snd r) = objs w"
    using assms(4)
    by (auto simp: assms(5,6) unf upload_try_def object_get_def Let_def added_def
          emit_def split: option.splits)
  have p3: "\<forall>ob. fst (object_get E dst w) = Inr ob
             \<and> md5_hexdigest E c = py_strip (CHR 0x22) (e_tag ob) \<longrightarrow>
        fst r = Done \<and> calls_of (added w (snd r)) = [Get dst] \<and> objs (snd r) = objs w"
    using assms(4)
    by (auto simp: assms(5,6) unf upload_try_def object_get_def rd Let_def added_def
          emit_def split: option.splits)
  have p4: "\<forall>ob. fst (object_get E dst w) = Inr ob
             \<and> md5_hexdigest E c \<noteq> py_strip (CHR 0x22) (e_tag ob) \<longrightarrow>
        take 2 (calls_of (added w (snd r))) = [Get dst, UploadFile src dst extra]
        \<and> (fault E (UploadFile src dst extra) = None \<longrightarrow>
              fst r = Done \<and> objs (snd r) = (objs w)(dst \<mapsto> new))"
    using assms(4) exn_of_cases
    by (cases "fault E (UploadFile src dst extra)")
       (auto simp: assms(5,6) unf upload_try_def object_get_def up rd Let_def added_def
          emit_def split: option.splits)
  have p5: "fault E (Get dst) = None \<and> fault E (UploadFile src dst extra) = None
          \<and> py_strip (CHR 0x22) (etag_of E c) = md5_hexdigest E c \<longrightarrow>
        fst r = Done
        \<and> fst (upload_item E s3_list extra n (idx, src0) (snd r)) = Done
        \<and> calls_of (added (snd r) (snd (upload_item E s3_list extra n (idx, src0) (snd r))))
            = [Get dst]
        \<and> objs (snd (upload_item E s3_list extra n (idx, src0) (snd r))) = objs (snd r)"
    using assms(4)
    by (cases "objs w dst")
       (auto simp: assms(5,6) unf upload_try_def object_get_def up rd Let_def added_def
          emit_def split: option.splits)
  show ?thesis using p1 p2 p3 p4 p5 by blast
qed

text \<open>
  Claim C2, amended. Take an upload batch with lists of equal length and any pair of it,
  at position \<open>idx\<close>, that \<^verbatim>\<open>s3_upload\<close> gets to (in the world \<open>wi\<close> the earlier pairs
  leave), whose local file is a regular file with content \<open>c\<close>; \<open>src\<close> and \<open>dst\<close> are the
  paths after the prefix check and \<open>r\<close> is the pass for the pair. The call of
  \<^verbatim>\<open>s3_upload\<close> is that pass followed by the passes for the later pairs, or the exception
  of that pass, and:
  \<^item> when the lookup of the destination raises \<^verbatim>\<open>ClientError\<close> (the key is absent, or the
    service answers with any other error), the requests of the pass are the lookup and
    the upload, whatever the checksums; when the upload succeeds the destination holds
    \<open>c\<close>;
  \<^item> when the lookup raises another exception, \<^verbatim>\<open>s3_upload\<close> raises that exception,
    nothing is uploaded and the bucket is as the earlier pairs left it;
  \<^item> when the destination exists and the MD5 of \<open>c\<close> equals its ETag without the quotes,
    the only request of the pass is the lookup and the bucket is unchanged (a skip);
  \<^item> when the destination exists and the two differ, the upload follows the lookup;
  \<^item> when neither the lookup nor the upload is made to fail and the store reports the MD5
    of what it stores as the ETag, the pass succeeds and a second pass for the pair, on
    the world the first leaves, makes the lookup only and changes nothing in the bucket;
    for a batch of that one pair, a second call of \<^verbatim>\<open>s3_upload\<close> on the world the first
    call leaves returns normally, makes the lookup only and changes nothing in the bucket.
\<close>

theorem s3_upload_decision:
  assumes "length local_list = length s3_list" and "idx < length local_list"
    and "extra = (if make_public then [(''ACL'', ''public-read'')] else []) @
                 (if encrypt then [(''ServerSideEncryption'', ''AES256'')] else [])"
    and "step = upload_item E s3_list extra (length local_list)"
    and "reaches step (List.enumerate 0 local_list) w idx wi"
    and "check_s3_prefix (local_list ! idx) (s3_list ! idx) = Inr (src, dst)"
    and "src \<noteq> []"
    and "files wi src = Some (File c)"
    and "r = step (idx, local_list ! idx) wi"
    and "new = \<lparr>body = c, e_tag = etag_of E c, extras = extra\<rparr>"
    and "once = s3_upload E (local_list, s3_list) make_public encrypt w"
    and "twice = s3_upload E (local_list, s3_list) make_public encrypt (snd once)"
  shows
    "once = (case r of
               (Raised e, w') \<Rightarrow> (Raised e, w')
             | (Done, wj) \<Rightarrow> for_each step (drop (Suc idx) (List.enumerate 0 local_list)) wj)
     \<and> (fst (object_get E dst wi) = Inl ClientError \<longrightarrow>
        calls_of (added wi (snd r)) = [Get dst, UploadFile src dst extra]
        \<and> (fault E (UploadFile src dst extra) = None \<longrightarrow>
              fst r = Done \<and> objs (snd r) = (objs wi)(dst \<mapsto> new)))
     \<and> (fst (object_get E dst wi) = Inl LibraryError \<longrightarrow>
        once = (Raised LibraryError, snd r) \<and> calls_of (added wi (snd r)) = [Get dst]
        \<and> objs (snd r) = objs wi)
     \<and> (\<forall>ob. fst (object_get E dst wi) = Inr ob
             \<and> md5_hexdigest E c = py_strip (CHR 0x22) (e_tag ob) \<longrightarrow>
        fst r = Done \<and> calls_of (added wi (snd r)) = [Get dst] \<and> objs (snd r) = objs wi)
     \<and> (\<forall>ob. fst (object_get E dst wi) = Inr ob
             \<and> md5_hexdigest E c \<noteq> py_strip (CHR 0x22) (e_tag ob) \<longrightarrow>
        take 2 (calls_of (added wi (snd r))) = [Get dst, UploadFile src dst extra]
        \<and> (fault E (UploadFile src dst extra) = None \<longrightarrow>
              fst r = Done \<and> objs (snd r) = (objs wi)(dst \<mapsto> new)))
     \<and> (fault E (Get dst) = None \<and> fault E (UploadFile src dst extra) = None
          \<and> py_strip (CHR 0x22) (etag_of E c) = md5_hexdigest E c \<longrightarrow>
        fst r = Done
        \<and> fst (step (idx, local_list ! idx) (snd r)) = Done
        \<and> calls_of (added (snd r) (snd (step (idx, local_list ! idx) (snd r)))) = [Get dst]
        \<and> objs (snd (step (idx, local_list ! idx) (snd r))) = objs (snd r)
        \<and> (length local_list = 1 \<longrightarrow>
              fst once = Done \<and> fst twice = Done
              \<and> calls_of (added (snd once) (snd twice)) = [Get dst]
              \<and> objs (snd twice) = objs (snd once)))"
proof -
  have i: "idx < length s3_list" using assms(1,2) by simp
  have link: "once = (case r of
               (Raised e, w') \<Rightarrow> (Raised e, w')
             | (Done, wj) \<Rightarrow> for_each step (drop (Suc idx) (List.enumerate 0 local_list)) wj)"
    unfolding assms(11) assms(9) assms(4)
    by (rule s3_upload_reaches [OF assms(1,2,3) assms(5) [unfolded assms(4)]])
  note item = upload_item_decision [OF i assms(6,7,8) assms(9) [unfolded assms(4)] assms(10)]
  have p1: "fst (object_get E dst wi) = Inl ClientError \<longrightarrow>
        calls_of (added wi (snd r)) = [Get dst, UploadFile src dst extra]
        \<and> (fault E (UploadFile src dst extra) = None \<longrightarrow>
              fst r = Done \<and> objs (snd r) = (objs wi)(dst \<mapsto> new))"
    using item by blast
  have p2: "fst (object_get E dst wi) = Inl LibraryError \<longrightarrow>
        once = (Raised LibraryError, snd r) \<and> calls_of (added wi (snd r)) = [Get dst]
        \<and> objs (snd r) = objs wi"
  proof
    assume h: "fst (object_get E dst wi) = Inl LibraryError"
    with item have f: "fst r = Raised LibraryError" and rest: "calls_of (added wi (snd r)) = [Get dst]"
      "objs (snd r) = objs wi"
      by blast+
    from f have "once = (Raised LibraryError, snd r)"
      unfolding link by (cases r) simp
    with rest show "once = (Raised LibraryError, snd r) \<and> calls_of (added wi (snd r)) = [Get dst]
        \<and> objs (snd r) = objs wi" by simp
  qed
  have p3: "\<forall>ob. fst (object_get E dst wi) = Inr ob
             \<and> md5_hexdigest E c = py_strip (CHR 0x22) (e_tag ob) \<longrightarrow>
        fst r = Done \<and> calls_of (added wi (snd r)) = [Get dst] \<and> objs (snd r) = objs wi"
    using item by blast
  have p4: "\<forall>ob. fst (object_get E dst wi) = Inr ob
             \<and> md5_hexdigest E c \<noteq> py_strip (CHR 0x22) (e_tag ob) \<longrightarrow>
        take 2 (calls_of (added wi (snd r))) = [Get dst, UploadFile src dst extra]
        \<and> (fault E (UploadFile src dst extra) = None \<longrightarrow>
              fst r = Done \<and> objs (snd r) = (objs wi)(dst \<mapsto> new))"
    using item by blast
  have p5: "fst r = Done
        \<and> fst (step (idx, local_list ! idx) (snd r)) = Done
        \<and> calls_of (added (snd r) (snd (step (idx, local_list ! idx) (snd r)))) = [Get dst]
        \<and> objs (snd (step (idx, local_list ! idx) (snd r))) = objs (snd r)"
    if h: "fault E (Get dst) = None \<and> fault E (UploadFile src dst extra) = None
          \<and> py_strip (CHR 0x22) (etag_of E c) = md5_hexdigest E c"
    using item h unfolding assms(4) by blast
  have p6: "fst once = Done \<and> fst twice = Done
              \<and> calls_of (added (snd once) (snd twice)) = [Get dst]
              \<and> objs (snd twice) = objs (snd once)"
    if h: "fault E (Get dst) = None \<and> fault E (UploadFile src dst extra) = None
          \<and> py_strip (CHR 0x22) (etag_of E c) = md5_hexdigest E c"
      and one: "length local_list = 1"
  proof -
    from one assms(2) have z: "idx = 0" by simp
    from one obtain s where s: "local_list = [s]" by (cases local_list) auto
    from one assms(1) obtain d where d: "s3_list = [d]" by (cases s3_list) auto
    have wi: "wi = w" using assms(5) z by simp
    have single: "\<And>v. s3_upload E ([s], [d]) make_public encrypt v = step (0, s) v"
      by (simp add: s d assms(3,4) s3_upload_single)
    show ?thesis
      using p5 [OF h] by (simp add: assms(11,12) single assms(9) z s d wi)
  qed
  show ?thesis using link p1 p2 p3 p4 p5 p6 by blast
qed

theorem s3_upload_decision_witness:
  "check_s3_prefix ''/tmp/x'' ''s3://bkt/d/x'' = Inr (''/tmp/x'', ''d/x'')
   \<and> fst (s3_upload (sample_env no_fault)
          ([''/tmp/x'', ''/tmp/x''], [''d/y'', ''s3://bkt/d/x'']) False False sample_world) = Done
   \<and> objs (snd (s3_upload (sample_env no_fault)
          ([''/tmp/x'', ''/tmp/x''], [''d/y'', ''s3://bkt/d/x'']) False False sample_world)) ''d/x''
       = Some \<lparr>body = ''X'', e_tag = etag_of (sample_env no_fault) ''X'', extras = []\<rparr>
   \<and> fst (s3_upload (sample_env no_fault) ([''/tmp/x''], [''s3://bkt/d/x'']) False False
          (snd (s3_upload (sample_env no_fault) ([''/tmp/x''], [''s3://bkt/d/x'']) False False
             sample_world))) = Done
   \<and> calls_of (added
        (snd (s3_upload (sample_env no_fault) ([''/tmp/x''], [''s3://bkt/d/x'']) False False
           sample_world))
        (snd (s3_upload (sample_env no_fault) ([''/tmp/x''], [''s3://bkt/d/x'']) False False
           (snd (s3_upload (sample_env no_fault) ([''/tmp/x''], [''s3://bkt/d/x'']) False False
              sample_world))))) = [Get ''d/x'']"
proof -
  let ?E = "sample_env no_fault"
  let ?ll = "[''/tmp/x'', ''/tmp/x'']"
  let ?sl = "[''d/y'', ''s3://bkt/d/x'']"
  let ?step = "upload_item ?E ?sl [] (length ?ll)"
  let ?wi = "snd (?step (0, ''/tmp/x'') sample_world)"
  let ?r = "?step (1, ?ll ! 1) ?wi"
  let ?once = "s3_upload ?E (?ll, ?sl) False False sample_world"
  have pre: "check_s3_prefix ''/tmp/x'' ''s3://bkt/d/x'' = Inr (''/tmp/x'', ''d/x'')"
    by (simp add: string_defs py_index_def)
  have pass0: "fst (?step (0, ''/tmp/x'') sample_world) = Done"
    and lf: "files ?wi ''/tmp/x'' = Some (File ''X'')"
    and look: "fst (object_get ?E ''d/x'' ?wi) = Inl ClientError"
    by (simp_all add: upload_item_def upload_try_def request_defs sample_defs string_defs
          Let_def emit_def)
  have reach: "reaches ?step (List.enumerate 0 ?ll) sample_world 1 ?wi"
    using pass0 by (cases "?step (0, ''/tmp/x'') sample_world") (simp add: reaches_def)
  have p1: "length ?ll = length ?sl" and p2: "(1::nat) < length ?ll"
    and p3: "[] = (if False then [(''ACL'', ''public-read'')] else []) @
                 (if False then [(''ServerSideEncryption'', ''AES256'')] else [])"
    and p6: "check_s3_prefix (?ll ! 1) (?sl ! 1) = Inr (''/tmp/x'', ''d/x'')"
    and p7: "''/tmp/x'' \<noteq> []"
    using pre by simp_all
  have nf: "fault ?E (Get ''d/x'') = None" "fault ?E (UploadFile ''/tmp/x'' ''d/x'' []) = None"
    by (simp_all add: sample_env_def no_fault_def)
  note inst1 = s3_upload_decision
      [where local_list = ?ll and ?s3_list.0 = ?sl and idx = 1 and E = ?E and extra = "[]"
         and make_public = False and encrypt = False and w = sample_world and wi = ?wi
         and src = "''/tmp/x''" and dst = "''d/x''" and c = "''X''" and step = ?step
         and r = ?r and once = ?once,
       OF p1 p2 p3 refl reach p6 p7 lf refl refl refl refl]
  from inst1 look nf(2)
  have link: "?once = (case ?r of (Raised e, w') \<Rightarrow> (Raised e, w')
       | (Done, wj) \<Rightarrow> for_each ?step (drop (Suc 1) (List.enumerate 0 ?ll)) wj)"
    and res: "fst ?r = Done"
      "objs (snd ?r) = (objs ?wi)(''d/x'' \<mapsto> \<lparr>body = ''X'', e_tag = etag_of ?E ''X'', extras = []\<rparr>)"
    by blast+
  have "?once = ?r"
    using res(1) by (subst link, cases ?r) simp
  with res have first: "fst ?once = Done"
    "objs (snd ?once) ''d/x'' = Some \<lparr>body = ''X'', e_tag = etag_of ?E ''X'', extras = []\<rparr>"
    by simp_all
  let ?l1 = "[''/tmp/x'']"
  let ?s1 = "[''s3://bkt/d/x'']"
  have q1: "length ?l1 = length ?s1" and q2: "(0::nat) < length ?l1"
    and q5: "reaches (upload_item ?E ?s1 [] (length ?l1)) (List.enumerate 0 ?l1)
               sample_world 0 sample_world"
    and q6: "check_s3_prefix (?l1 ! 0) (?s1 ! 0) = Inr (''/tmp/x'', ''d/x'')"
    and q8: "files sample_world ''/tmp/x'' = Some (File ''X'')"
    and one: "length ?l1 = 1"
    using pre by (simp_all add: sample_world_def)
  have tag: "py_strip (CHR 0x22) (etag_of ?E ''X'') = md5_hexdigest ?E ''X''"
    by (simp add: sample_defs string_defs)
  note inst2 = s3_upload_decision
      [where local_list = ?l1 and ?s3_list.0 = ?s1 and idx = 0 and E = ?E and extra = "[]"
         and make_public = False and encrypt = False and w = sample_world
         and wi = sample_world and src = "''/tmp/x''" and dst = "''d/x''" and c = "''X''",
       OF q1 q2 p3 refl q5 q6 p7 q8 refl refl refl refl]
  from inst2 nf tag one
  have second: "fst (s3_upload ?E (?l1, ?s1) False False
          (snd (s3_upload ?E (?l1, ?s1) False False sample_world))) = Done"
    "calls_of (added (snd (s3_upload ?E (?l1, ?s1) False False sample_world))
        (snd (s3_upload ?E (?l1, ?s1) False False
           (snd (s3_upload ?E (?l1, ?s1) False False sample_world))))) = [Get ''d/x'']"
    by blast+
  from pre first second show ?thesis by simp
qed

section \<open>Upload: the prefix check\<close>

lemma py_split_segment: "c \<notin> set b \<Longrightarrow> py_split c (b @ c # rest) = b # py_split c rest"
  by (induction b) (auto split: list.splits)

lemma py_remove_prefix: "old \<noteq> [] \<Longrightarrow> py_remove old (old @ s) = py_remove old s"
  by (cases old) auto

lemma strip_bucket_qualified:
  assumes "CHR ''/'' \<notin> set b"
  shows "strip_bucket (s3_str @ b @ ''/'' @ rest) =
           Inr (py_lstrip (CHR ''/'') (py_remove (s3_str @ b) (''/'' @ rest)))"
proof -
  have "py_split (CHR ''/'') (s3_str @ b @ ''/'' @ rest) =
          ''s3:'' # [] # b # py_split (CHR ''/'') rest"
    using py_split_segment [OF assms, of rest] by (simp add: s3_str_def)
  moreover have "py_remove (s3_str @ b) (s3_str @ b @ ''/'' @ rest) =
          py_remove (s3_str @ b) (''/'' @ rest)"
    using py_remove_prefix [of "s3_str @ b" "''/'' @ rest"] by (simp add: s3_str_def)
  ultimately show ?thesis
    by (simp add: strip_bucket_def py_index_def)
qed

text \<open>When the source is a plain local path, a destination \<^verbatim>\<open>s3://bucket/rest\<close> in
  which the prefix does not occur again becomes \<^verbatim>\<open>rest\<close> without leading slashes.\<close>

lemma check_s3_prefix_destination:
  assumes "\<not> startswith src_file s3_str" and "CHR ''/'' \<notin> set b"
    and "py_remove (s3_str @ b) (''/'' @ rest) = ''/'' @ rest"
  shows "check_s3_prefix src_file (s3_str @ b @ ''/'' @ rest) =
           Inr (src_file, py_lstrip (CHR ''/'') rest)"
  using assms strip_bucket_qualified [OF assms(2), of rest]
  by (simp add: check_s3_prefix_def startswith_def py_lstrip_def)

text \<open>When the source starts with \<^verbatim>\<open>s3://\<close> the destination is never looked at.\<close>

lemma check_s3_prefix_source_only:
  assumes "startswith src_file s3_str"
  shows "\<exists>src'. check_s3_prefix src_file dst_file = Inr (src', dst_file)
           \<or> check_s3_prefix src_file dst_file = Inl IndexError"
  using assms by (auto simp: check_s3_prefix_def strip_bucket_def py_index_def split: sum.splits)

text \<open>
  Claim C6 says that a fully qualified path is reduced to the path inside the bucket
  whether it is the source or the destination. The destination is handled in the
  \<^verbatim>\<open>elif\<close> of the source's test: when both paths are qualified only the source is
  reduced, and the lookup and the upload are made with the key
  \<^verbatim>\<open>s3://bkt/d/x\<close> instead of \<^verbatim>\<open>d/x\<close>.
\<close>

theorem upload_both_qualified_run:
  "check_s3_prefix ''s3://bkt/tmp/x'' ''s3://bkt/d/x'' = Inr (''tmp/x'', ''s3://bkt/d/x'')
   \<and> calls_of (trace (snd (s3_upload (sample_env no_fault)
        ([''s3://bkt/tmp/x''], [''s3://bkt/d/x'']) False False sample_world))) =
       [Get ''s3://bkt/d/x'', UploadFile ''tmp/x'' ''s3://bkt/d/x'' []]"
  by (simp add: s3_upload_def upload_item_def upload_try_def request_defs sample_defs string_defs Let_def)

section \<open>Rename\<close>


lemma rename_item_copies:
  assumes "idx < length dst_list"
    and "objs w src_f = Some ob"
    and "objs w (dst_list ! idx) = None"
    and "fault E (Get src_f) = None"
    and "fault E (Get (dst_list ! idx)) \<noteq> Some OtherFault"
    and "args = (if make_public then [(''ACL'', ''public-read'')] else [])"
    and "fault E (CopyFrom (dst_list ! idx) (bucket_name E @ ''/'' @ src_f) args) = None"
  shows "rename_item E dst_list keep_old make_public n (idx, src_f) w =
    (let w5 = w\<lparr>objs := (objs w)(dst_list ! idx \<mapsto> ob\<lparr>extras := args\<rparr>),
                 trace := trace w @ [Call (Get src_f), Call (Get (dst_list ! idx)),
                    Print (Copying src_f (dst_list ! idx))] @
                    (if make_public then [Print MakingPublic] else []) @
                    [Call (CopyFrom (dst_list ! idx) (bucket_name E @ ''/'' @ src_f) args)]\<rparr>
     in if keep_old then (Done, emit (Print (DoneRenaming (idx + 1) n)) w5)
        else (case fault E (Delete src_f) of
                Some f \<Rightarrow> (Raised (exn_of f), emit (Call (Delete src_f)) w5)
              | None \<Rightarrow> (Done, emit (Print (DoneRenaming (idx + 1) n))
                              ((emit (Call (Delete src_f)) w5)\<lparr>objs := (objs w5)(src_f := None)\<rparr>))))"
proof -
  have g: "fault E (Get (dst_list ! idx)) = None \<or> fault E (Get (dst_list ! idx)) = Some ClientFault"
    using assms(5) by (cases "fault E (Get (dst_list ! idx))") (auto intro: fault.exhaust)
  show ?thesis
  proof (cases make_public)
    case True
    with assms(1-4,6,7) g show ?thesis
      by (cases keep_old; cases "fault E (Delete src_f)")
         (auto simp: rename_item_def object_get_def py_index_def Let_def object_copy_from_def
            object_delete_def emit_def)
  next
    case False
    with assms(1-4,6,7) g show ?thesis
      by (cases keep_old; cases "fault E (Delete src_f)")
         (auto simp: rename_item_def object_get_def py_index_def Let_def object_copy_from_def
            object_delete_def emit_def)
  qed
qed

text \<open>Whenever a pass makes a copy request, the lookup of the source has answered and
  the lookup of the destination has raised \<^verbatim>\<open>ClientError\<close>: what is asked of the lookups
  below says no more than that the copy was reached.\<close>

lemma rename_item_copy_requested:
  assumes "idx < length dst_list"
    and "CopyFrom d cs a \<in> set (calls_of (added w
           (snd (rename_item E dst_list keep_old make_public n (idx, src_f) w))))"
  shows "fault E (Get src_f) = None \<and> objs w src_f \<noteq> None
         \<and> fault E (Get (dst_list ! idx)) \<noteq> Some OtherFault"
proof -
  have ex: "exn_of f = ClientError \<longleftrightarrow> f = ClientFault" for f
    by (cases f) simp_all
  show ?thesis
    using assms
    by (cases "fault E (Get src_f)"; cases "objs w src_f"; cases "fault E (Get (dst_list ! idx))";
        cases "objs w (dst_list ! idx)")
       (auto simp: rename_item_def object_get_def py_index_def added_def Let_def ex split: if_splits)
qed





text \<open>
  One pass of the rename loop, run in any world, for a pair whose source exists and whose
  destination does not, when the lookups behave and the copy succeeds: the requests of the pass are the two
  lookups, the copy and, exactly when \<^verbatim>\<open>keep_old\<close> is false, the delete of the source.
  With \<^verbatim>\<open>keep_old\<close> the source is still there and the destination holds its content
  and ETag; without it, once the delete succeeds, the source is gone and the destination
  holds them.
\<close>

lemma rename_item_copy_then_delete:
  assumes "idx < length dst_list"
    and "objs w src_f = Some ob"
    and "objs w (dst_list ! idx) = None"
    and "fault E (Get src_f) = None"
    and "fault E (Get (dst_list ! idx)) \<noteq> Some OtherFault"
    and "args = (if make_public then [(''ACL'', ''public-read'')] else [])"
    and "fault E (CopyFrom (dst_list ! idx) (bucket_name E @ ''/'' @ src_f) args) = None"
    and "r = rename_item E dst_list keep_old make_public n (idx, src_f) w"
  shows "calls_of (added w (snd r)) =
           [Get src_f, Get (dst_list ! idx),
            CopyFrom (dst_list ! idx) (bucket_name E @ ''/'' @ src_f) args]
           @ (if keep_old then [] else [Delete src_f])
       \<and> (keep_old \<longrightarrow> fst r = Done \<and> objs (snd r) src_f = Some ob
            \<and> objs (snd r) (dst_list ! idx) = Some (ob\<lparr>extras := args\<rparr>))
       \<and> (\<not> keep_old \<and> fault E (Delete src_f) = None \<longrightarrow> fst r = Done
            \<and> objs (snd r) src_f = None
            \<and> objs (snd r) (dst_list ! idx) = Some (ob\<lparr>extras := args\<rparr>))"
proof -
  from assms(2,3) have ne: "src_f \<noteq> dst_list ! idx" by auto
  show ?thesis
    unfolding assms(8) rename_item_copies [OF assms(1-7)]
    using ne assms(2)
    by (cases make_public; cases keep_old; cases "fault E (Delete src_f)")
       (simp_all add: Let_def emit_def added_def)
qed

text \<open>
  Claim C5. Take a rename batch with lists of equal length and any pair of it, at position
  \<open>idx\<close>, that \<^verbatim>\<open>s3_rename\<close> gets to (in the world \<open>wi\<close> the earlier pairs leave), whose
  source exists and whose destination does not, with the lookups behaving and the copy
  succeeding; \<open>r\<close> is the pass for the pair. The call of \<^verbatim>\<open>s3_rename\<close> is that pass
  followed by the passes for the later pairs, or the exception of that pass; the requests
  of the pass are the two lookups, the copy and, exactly when \<^verbatim>\<open>keep_old\<close> is false,
  the delete of the source. With \<^verbatim>\<open>keep_old\<close> the source is still there and the
  destination holds its content and ETag; without it, once the delete succeeds, the source
  is gone and the destination holds them.
\<close>

theorem s3_rename_copy_then_delete:
  assumes "length src_list = length dst_list" and "idx < length src_list"
    and "reaches (rename_item E dst_list keep_old make_public (length src_list))
           (List.enumerate 0 src_list) w idx wi"
    and "src_f = src_list ! idx" and "dst_key = dst_list ! idx"
    and "objs wi src_f = Some ob"
    and "objs wi dst_key = None"
    and "fault E (Get src_f) = None"
    and "fault E (Get dst_key) \<noteq> Some OtherFault"
    and "args = (if make_public then [(''ACL'', ''public-read'')] else [])"
    and "fault E (CopyFrom dst_key (bucket_name E @ ''/'' @ src_f) args) = None"
    and "r = rename_item E dst_list keep_old make_public (length src_list) (idx, src_f) wi"
  shows "s3_rename E (src_list, dst_list) keep_old make_public w =
           (case r of
              (Raised e, w') \<Rightarrow> (Raised e, w')
            | (Done, wj) \<Rightarrow>
                for_each (rename_item E dst_list keep_old make_public (length src_list))
                  (drop (Suc idx) (List.enumerate 0 src_list)) wj)
       \<and> calls_of (added wi (snd r)) =
           [Get src_f, Get dst_key, CopyFrom dst_key (bucket_name E @ ''/'' @ src_f) args]
           @ (if keep_old then [] else [Delete src_f])
       \<and> (keep_old \<longrightarrow> fst r = Done \<and> objs (snd r) src_f = Some ob
            \<and> objs (snd r) dst_key = Some (ob\<lparr>extras := args\<rparr>))
       \<and> (\<not> keep_old \<and> fault E (Delete src_f) = None \<longrightarrow> fst r = Done
            \<and> objs (snd r) src_f = None
            \<and> objs (snd r) dst_key = Some (ob\<lparr>extras := args\<rparr>))"
proof -
  have i: "idx < length dst_list" using assms(1,2) by simp
  have link: "s3_rename E (src_list, dst_list) keep_old make_public w =
           (case r of
              (Raised e, w') \<Rightarrow> (Raised e, w')
            | (Done, wj) \<Rightarrow>
                for_each (rename_item E dst_list keep_old make_public (length src_list))
                  (drop (Suc idx) (List.enumerate 0 src_list)) wj)"
    unfolding assms(12) assms(4) by (rule s3_rename_reaches [OF assms(1-3)])
  have pass: "calls_of (added wi (snd r)) =
           [Get src_f, Get (dst_list ! idx),
            CopyFrom (dst_list ! idx) (bucket_name E @ ''/'' @ src_f) args]
           @ (if keep_old then [] else [Delete src_f])
       \<and> (keep_old \<longrightarrow> fst r = Done \<and> objs (snd r) src_f = Some ob
            \<and> objs (snd r) (dst_list ! idx) = Some (ob\<lparr>extras := args\<rparr>))
       \<and> (\<not> keep_old \<and> fault E (Delete src_f) = None \<longrightarrow> fst r = Done
            \<and> objs (snd r) src_f = None
            \<and> objs (snd r) (dst_list ! idx) = Some (ob\<lparr>extras := args\<rparr>))"
    using assms(6-9,11) 
    by (intro rename_item_copy_then_delete [OF i _ _ _ _ assms(10) _ assms(12)])
       (simp_all add: assms(5))
  show ?thesis using link pass by (simp add: assms(5))
qed

theorem s3_rename_copy_then_delete_witness:
  "reaches (rename_item (sample_env no_fault) [''a'', ''c''] False False 2)
       (List.enumerate 0 [''b'', ''a'']) sample_world 1
       (sample_world\<lparr>trace := [Call (Get ''b''), Call (Get ''a''),
                                Print (DestinationExists ''a'')]\<rparr>)
   \<and> fst (s3_rename (sample_env no_fault) ([''b'', ''a''], [''a'', ''c'']) False False sample_world)
       = Done
   \<and> objs (snd (s3_rename (sample_env no_fault) ([''b'', ''a''], [''a'', ''c'']) False False
        sample_world)) ''a'' = None
   \<and> objs (snd (s3_rename (sample_env no_fault) ([''b'', ''a''], [''a'', ''c'']) False False
        sample_world)) ''c'' = Some (sample_obj ''A'')"
proof -
  let ?E = "sample_env no_fault"
  let ?wi = "sample_world\<lparr>trace := [Call (Get ''b''), Call (Get ''a''),
                                Print (DestinationExists ''a'')]\<rparr>"
  let ?r = "rename_item ?E [''a'', ''c''] False False (length [''b'', ''a'']) (1, ''a'') ?wi"
  have reach: "reaches (rename_item ?E [''a'', ''c''] False False (length [''b'', ''a'']))
       (List.enumerate 0 [''b'', ''a'']) sample_world 1 ?wi"
    by (simp add: reaches_def rename_item_def request_defs sample_defs emit_def Let_def)
  have nf: "fault ?E (Get ''a'') = None" "fault ?E (Get ''c'') \<noteq> Some OtherFault"
    "fault ?E (CopyFrom ''c'' (bucket_name ?E @ ''/'' @ ''a'') []) = None"
    "fault ?E (Delete ''a'') = None"
    by (simp_all add: sample_env_def no_fault_def)
  have st: "objs ?wi ''a'' = Some (sample_obj ''A'')" "objs ?wi ''c'' = None"
    by (simp_all add: sample_world_def)
  from s3_rename_copy_then_delete
      [where src_list = "[''b'', ''a'']" and dst_list = "[''a'', ''c'']" and idx = 1
         and E = ?E and keep_old = False and make_public = False and w = sample_world
         and wi = ?wi and src_f = "''a''" and dst_key = "''c''" and ob = "sample_obj ''A''"
         and args = "[]" and r = ?r,
       OF _ _ reach _ _ st nf(1,2) _ nf(3) refl]
  have link: "s3_rename ?E ([''b'', ''a''], [''a'', ''c'']) False False sample_world =
      (case ?r of (Raised e, w') \<Rightarrow> (Raised e, w')
       | (Done, wj) \<Rightarrow> for_each (rename_item ?E [''a'', ''c''] False False (length [''b'', ''a'']))
            (drop (Suc 1) (List.enumerate 0 [''b'', ''a''])) wj)"
    and res: "fst ?r = Done" "objs (snd ?r) ''a'' = None"
      "objs (snd ?r) ''c'' = Some (sample_obj ''A'')"
    using nf(4) by (simp_all add: sample_obj_def)
  have "s3_rename ?E ([''b'', ''a''], [''a'', ''c'']) False False sample_world = ?r"
    unfolding link using res(1) by (cases ?r) simp
  with res reach show ?thesis by (simp add: numeral_2_eq_2)
qed

lemma rename_item_raises:
  assumes "rename_item E dl k p n it w = (Raised e, w')"
  shows "e = ClientError \<or> e = LibraryError \<or> e = IndexError"
  using assms exn_of_cases
  by (cases it)
     (auto simp: rename_item_def object_get_def object_copy_from_def object_delete_def
        py_index_def Let_def split: option.splits sum.splits prod.splits if_splits)

text \<open>
  Claim C10. No call of \<^verbatim>\<open>s3_rename\<close> raises a \<^verbatim>\<open>RuntimeError\<close>: when the two lists
  differ in length the first check raises the \<^verbatim>\<open>ValueError\<close> and leaves the world as it
  was, so the second check, which would raise the \<^verbatim>\<open>RuntimeError\<close>, is never reached with
  lists of different lengths, and nothing in the loop raises one.
\<close>

theorem s3_rename_never_runtime_error:
  "fst (s3_rename E (src_list, dst_list) keep_old make_public w) \<noteq> Raised (RuntimeError m)
   \<and> (length src_list \<noteq> length dst_list \<longrightarrow>
        s3_rename E (src_list, dst_list) keep_old make_public w =
          (Raised (ValueError ''src_list and dst_list are different lengths!''), w))"
proof -
  have "for_each (rename_item E dst_list keep_old make_public (length src_list))
          (List.enumerate 0 src_list) w \<noteq> (Raised (RuntimeError m), w')" for w'
  proof
    assume "for_each (rename_item E dst_list keep_old make_public (length src_list))
          (List.enumerate 0 src_list) w = (Raised (RuntimeError m), w')"
    then show False
    proof (rule for_each_raises [rotated])
      fix x v v'
      assume "rename_item E dst_list keep_old make_public (length src_list) x v
                = (Raised (RuntimeError m), v')"
      from rename_item_raises [OF this] show False by simp
    qed
  qed
  then show ?thesis
    by (auto simp: s3_rename_def Let_def) (metis prod.collapse)
qed

theorem s3_rename_never_runtime_error_witness:
  "length [''a''] \<noteq> length ([] :: key list)
   \<and> fst (s3_rename (sample_env no_fault) ([''a''], []) False False sample_world)
       \<noteq> Raised (RuntimeError ''m'')
   \<and> s3_rename (sample_env no_fault) ([''a''], []) False False sample_world =
       (Raised (ValueError ''src_list and dst_list are different lengths!''), sample_world)"
  using s3_rename_never_runtime_error
    [of "sample_env no_fault" "[''a'']" "[]" False False sample_world "''m''"]
  by simp

section \<open>Download\<close>

text \<open>A failure of the download that overwrites an existing file is caught and printed,
  and the pass ends normally.\<close>

lemma download_overwrite_failure_caught:
  assumes "idx < length local_files"
    and "fault E (Get bkey) = None" and "objs w bkey = Some bobj"
    and "path_exists w (dirname (local_files ! idx))"
    and "local_files ! idx \<noteq> []" and "files w (local_files ! idx) = Some (File c)"
    and "md5_hexdigest E c \<noteq> py_strip (CHR 0x22) (e_tag bobj)"
    and "fault E (DownloadFile bkey (local_files ! idx)) = Some f"
  shows "download_item E local_files n (idx, bkey) w =
    (Done, w\<lparr>trace := trace w @
       [Call (Get bkey), Print (Overwriting (local_files ! idx)),
        Call (DownloadFile bkey (local_files ! idx)),
        Print (CouldNotDownload bkey (exn_of f)), Print (FinishedDownload (idx + 1) n)]\<rparr>)"
  using assms
  by (auto simp: download_item_def request_defs Let_def emit_def)

text \<open>
  Claim C4 says that a failure of one download never aborts the batch. The download to
  a path that does not exist yet is outside any \<^verbatim>\<open>try\<close>: when the download of the
  first of two keys fails (both keys exist, neither local file does), the exception leaves
  \<^verbatim>\<open>s3_download\<close>, nothing is printed about it, and the second key is never asked for.
\<close>

theorem download_failure_aborts_run:
  "fst (s3_download (sample_env (fault_on (DownloadFile ''a'' ''/tmp/a'') OtherFault))
         ([''a'', ''b''], [''/tmp/a'', ''/tmp/b'']) sample_world) = Raised LibraryError
   \<and> trace (snd (s3_download (sample_env (fault_on (DownloadFile ''a'' ''/tmp/a'') OtherFault))
         ([''a'', ''b''], [''/tmp/a'', ''/tmp/b'']) sample_world)) =
        [Call (Get ''a''), Print (Downloading ''a'' ''/tmp/a''), Call (DownloadFile ''a'' ''/tmp/a'')]"
  by (simp add: s3_download_def download_item_def request_defs sample_defs string_defs Let_def)

lemma mkdirs_keeps: "fs p \<noteq> None \<Longrightarrow> mkdirs n d fs p = fs p"
  by (induction n arbitrary: d) auto

text \<open>A destination that is a directory is never written to and no transfer is asked
  for; the pass ends normally exactly when the directory part of the path is not empty,
  and when that directory part exists the pass does nothing but the lookup.\<close>

lemma download_item_directory:
  assumes "idx < length local_files"
    and "fault E (Get bkey) = None" and "objs w bkey = Some bobj"
    and "path_isdir w (local_files ! idx)"
    and "r = download_item E local_files n (idx, bkey) w"
  shows "filter is_transfer (calls_of (added w (snd r))) = []"
    and "files (snd r) (local_files ! idx) = Some Dir"
    and "fst r = (if dirname (local_files ! idx) = [] then Raised OSError else Done)"
    and "path_exists w (dirname (local_files ! idx)) \<Longrightarrow> r = (Done, emit (Call (Get bkey)) w)"
  using assms
  by (auto simp: download_item_def request_defs Let_def emit_def added_def mkdirs_keeps)

text \<open>
  Claim C9 says that a pair whose destination is an existing directory is skipped. The
  directory test comes after \<^verbatim>\<open>os.makedirs(os.path.dirname(local_path))\<close>: for the
  directory \<^verbatim>\<open>out\<close>, given by its bare name, the directory part is the empty string,
  which does not exist, and \<^verbatim>\<open>os.makedirs('')\<close> raises; the exception leaves
  \<^verbatim>\<open>s3_download\<close>. Nothing is written.
\<close>

theorem download_bare_directory_run:
  "path_isdir sample_world ''out''
   \<and> fst (object_get (sample_env no_fault) ''a'' sample_world) = Inr (sample_obj ''A'')
   \<and> s3_download (sample_env no_fault) ([''a''], [''out'']) sample_world =
       (Raised OSError, sample_world\<lparr>trace := [Call (Get ''a''), Makedirs []]\<rparr>)"
  by (simp add: s3_download_def download_item_def request_defs sample_defs string_defs Let_def emit_def)

section \<open>The progress tracker with total size zero\<close>

text \<open>
  Claim C8. A tracker built for a total size of 0 (a \<^verbatim>\<open>content_length\<close> or a
  \<^verbatim>\<open>size\<close> of 0) has \<open>size_total = 0\<close>; whatever it has seen so far and whatever number of
  bytes a call delivers, the call returns a line, not a \<^verbatim>\<open>ZeroDivisionError\<close>, and the
  percentage of the line is exactly 0; so is the percentage of every line of any run of
  calls.
\<close>

theorem progress_zero_total:
  "ProgressPercentage_init E w (WithContentLength 0) = Inr \<lparr>size_total = 0, seen_so_far = 0\<rparr>
   \<and> ProgressPercentage_init E w (WithSize 0) = Inr \<lparr>size_total = 0, seen_so_far = 0\<rparr>
   \<and> ProgressPercentage_call \<lparr>size_total = 0, seen_so_far = s\<rparr> n =
       (Inr \<lparr>delivered = s + n, total = 0, percentage = 0\<rparr>, \<lparr>size_total = 0, seen_so_far = s + n\<rparr>)
   \<and> map (map_sum id percentage) (progress_lines \<lparr>size_total = 0, seen_so_far = s\<rparr> bs)
       = replicate (length bs) (Inr 0)"
proof -
  have step: "\<And>s n. ProgressPercentage_call \<lparr>size_total = 0, seen_so_far = s\<rparr> n =
       (Inr \<lparr>delivered = s + n, total = 0, percentage = 0\<rparr>, \<lparr>size_total = 0, seen_so_far = s + n\<rparr>)"
    by (simp add: ProgressPercentage_call_def)
  have run: "map (map_sum id percentage) (progress_lines \<lparr>size_total = 0, seen_so_far = s\<rparr> bs)
       = replicate (length bs) (Inr 0)"
    by (induction bs arbitrary: s) (simp_all add: step)
  show ?thesis
    using step run by (simp add: ProgressPercentage_init_def)
qed

section \<open>Bulk delete\<close>

lemma delete_item_result:
  "delete_item E n (idx, k) w =
     (Done, w\<lparr>objs := (if fault E (Delete k) = None then (objs w)(k := None) else objs w),
              trace := trace w @
                [Print (AttemptingDelete k (bucket_name E)), Call (Delete k),
                 Print (case fault E (Delete k) of
                          None \<Rightarrow> DoneDeleting (idx + 1) n
                        | Some f \<Rightarrow> UnableToDelete k (exn_of f))]\<rparr>)"
  by (simp add: delete_item_def object_delete_def emit_def split: option.splits)

lemma delete_loop:
  "\<exists>es. for_each (delete_item E n) (List.enumerate i ks) w =
          (Done, w\<lparr>objs := (\<lambda>k. if k \<in> set ks \<and> fault E (Delete k) = None then None else objs w k),
                   trace := trace w @ es\<rparr>)
        \<and> calls_of es = map Delete ks
        \<and> delete_failures es = expected_failures E ks"
proof (induction ks arbitrary: i w)
  case Nil
  show ?case
    by (rule exI [of _ "[]"]) (simp add: expected_failures_def delete_failures_def)
next
  case (Cons k ks)
  let ?first = "[Print (AttemptingDelete k (bucket_name E)), Call (Delete k),
                 Print (case fault E (Delete k) of
                          None \<Rightarrow> DoneDeleting (i + 1) n
                        | Some f \<Rightarrow> UnableToDelete k (exn_of f))]"
  let ?w1 = "w\<lparr>objs := (if fault E (Delete k) = None then (objs w)(k := None) else objs w),
              trace := trace w @ ?first\<rparr>"
  from Cons.IH [of "Suc i" ?w1] obtain es where
    run: "for_each (delete_item E n) (List.enumerate (Suc i) ks) ?w1 =
          (Done, ?w1\<lparr>objs := (\<lambda>k'. if k' \<in> set ks \<and> fault E (Delete k') = None then None else objs ?w1 k'),
                   trace := trace ?w1 @ es\<rparr>)"
    and c: "calls_of es = map Delete ks"
    and f: "delete_failures es = expected_failures E ks"
    by blast
  have "for_each (delete_item E n) (List.enumerate i (k # ks)) w =
          (Done, w\<lparr>objs := (\<lambda>k'. if k' \<in> set (k # ks) \<and> fault E (Delete k') = None then None else objs w k'),
                   trace := trace w @ (?first @ es)\<rparr>)"
    using run by (auto simp: delete_item_result fun_eq_iff)
  moreover have "calls_of (?first @ es) = map Delete (k # ks)"
    using c by simp
  moreover have "delete_failures (?first @ es) = expected_failures E (k # ks)"
    using f by (simp add: expected_failures_def delete_failures_def split: option.splits)
  ultimately show ?case by blast
qed

text \<open>
  Claim C7. \<^verbatim>\<open>s3_delete\<close> returns normally whatever fails; the requests it makes are
  exactly one delete per key of the list, in the list's order; the failures it prints
  (\<^verbatim>\<open>Unable to delete bucket key ..\<close>, with the exception) are exactly those of the keys
  whose delete failed, in order; and afterwards every listed key whose delete did not fail
  is gone, while every other key is as before.
\<close>

theorem s3_delete_attempts_every_key:
  "fst (s3_delete E ks w) = Done
   \<and> calls_of (added w (snd (s3_delete E ks w))) = map Delete ks
   \<and> delete_failures (added w (snd (s3_delete E ks w))) = expected_failures E ks
   \<and> objs (snd (s3_delete E ks w)) =
       (\<lambda>k. if k \<in> set ks \<and> fault E (Delete k) = None then None else objs w k)"
proof -
  obtain es where
    run: "for_each (delete_item E (length ks)) (List.enumerate 0 ks) w =
          (Done, w\<lparr>objs := (\<lambda>k. if k \<in> set ks \<and> fault E (Delete k) = None then None else objs w k),
                   trace := trace w @ es\<rparr>)"
    and c: "calls_of es = map Delete ks"
    and f: "delete_failures es = expected_failures E ks"
    using delete_loop [of E "length ks" 0 ks w] by blast
  show ?thesis
    using c f by (simp add: s3_delete_def run added_def)
qed

end
